theory Spec2Isabelle
  imports Main "HOL-Library.Sublist"
begin

section \<open>The data store of server.js\<close>

text \<open>
  The two module-level arrays \<^verbatim>\<open>authors\<close> and \<^verbatim>\<open>books\<close> hold plain JavaScript
  objects. An author literal has the properties \<^verbatim>\<open>id\<close> and \<^verbatim>\<open>name\<close>, a book literal
  has \<^verbatim>\<open>authorId\<close> as well. The \<^verbatim>\<open>addAuthor\<close> resolver pushes an author literal onto
  \<^verbatim>\<open>books\<close>, so one array can hold both shapes: an object is therefore one record type
  whose \<open>authorId\<close> is \<open>None\<close> where the property is missing (reading it in
  JavaScript gives \<^verbatim>\<open>undefined\<close>). The field \<open>id'\<close> is the property \<^verbatim>\<open>id\<close>.
  Numbers are integers here: ids are array lengths plus one, and arguments have passed
  the \<^verbatim>\<open>GraphQLInt\<close> coercion of the schema layer.
\<close>

record entity =
  id' :: int
  name :: string
  authorId :: "int option"

record store =
  authors :: "entity list"
  books :: "entity list"

definition initial_authors :: "entity list" where
  "initial_authors =
    [\<lparr>id' = 1, name = ''J.K. Rowling'', authorId = None\<rparr>,
     \<lparr>id' = 2, name = ''George R.R. Martin'', authorId = None\<rparr>,
     \<lparr>id' = 3, name = ''J.R.R. Tolkien'', authorId = None\<rparr>,
     \<lparr>id' = 4, name = ''Isaac Asimov'', authorId = None\<rparr>]"

definition initial_books :: "entity list" where
  "initial_books =
    [\<lparr>id' = 1, name = ''Harry Potter and the Philosopher's Stone'', authorId = Some 1\<rparr>,
     \<lparr>id' = 2, name = ''Harry Potter and the Chamber of Secrets'', authorId = Some 1\<rparr>,
     \<lparr>id' = 3, name = ''A Game of Thrones'', authorId = Some 2\<rparr>,
     \<lparr>id' = 4, name = ''A Clash of Kings'', authorId = Some 2\<rparr>,
     \<lparr>id' = 5, name = ''The Hobbit'', authorId = Some 3\<rparr>,
     \<lparr>id' = 6, name = ''The Lord of the Rings'', authorId = Some 3\<rparr>,
     \<lparr>id' = 7, name = ''Foundation'', authorId = Some 4\<rparr>,
     \<lparr>id' = 8, name = ''I, Robot'', authorId = Some 4\<rparr>]"

definition initial_store :: store where
  "initial_store = \<lparr>authors = initial_authors, books = initial_books\<rparr>"

section \<open>Field resolvers\<close>

text \<open>
  \<^verbatim>\<open>Array.prototype.find\<close> returns the first element satisfying the callback, or
  \<^verbatim>\<open>undefined\<close>: \<open>List.find\<close> with \<open>None\<close> for \<^verbatim>\<open>undefined\<close>.
  \<^verbatim>\<open>Array.prototype.filter\<close> is \<open>filter\<close>. The strict equality \<^verbatim>\<open>===\<close> between a
  number and a possibly missing number is equality on \<open>int option\<close>: a number never
  equals \<^verbatim>\<open>undefined\<close>.
\<close>

text \<open>\<^verbatim>\<open>BookType.author\<close>: \<^verbatim>\<open>authors.find((author) => author.id === book.authorId)\<close>\<close>

definition BookType_author :: "store \<Rightarrow> entity \<Rightarrow> entity option" where
  "BookType_author st book =
     List.find (\<lambda>author. Some (id' author) = authorId book) (authors st)"

text \<open>\<^verbatim>\<open>AuthorType.books\<close>: \<^verbatim>\<open>books.filter((book) => book.authorId === author.id)\<close>\<close>

definition AuthorType_books :: "store \<Rightarrow> entity \<Rightarrow> entity list" where
  "AuthorType_books st author =
     filter (\<lambda>book. authorId book = Some (id' author)) (books st)"

text \<open>
  The root query fields. The argument \<^verbatim>\<open>id\<close> of \<^verbatim>\<open>book\<close> and \<^verbatim>\<open>author\<close> is a
  nullable \<^verbatim>\<open>GraphQLInt\<close>: \<open>None\<close> is the omitted argument (\<^verbatim>\<open>args.id\<close> is
  \<^verbatim>\<open>undefined\<close>).
\<close>

definition query_book :: "store \<Rightarrow> int option \<Rightarrow> entity option" where
  "query_book st args_id = List.find (\<lambda>book. Some (id' book) = args_id) (books st)"

definition query_books :: "store \<Rightarrow> entity list" where
  "query_books st = books st"

definition query_authors :: "store \<Rightarrow> entity list" where
  "query_authors st = authors st"

definition query_author :: "store \<Rightarrow> int option \<Rightarrow> entity option" where
  "query_author st args_id = List.find (\<lambda>author. Some (id' author) = args_id) (authors st)"

section \<open>Mutation resolvers\<close>

text \<open>
  A mutation resolver builds an object, pushes it and returns it: the model returns the
  object together with the store after the push. Both resolvers push onto \<^verbatim>\<open>books\<close>;
  \<^verbatim>\<open>addAuthor\<close> reads \<^verbatim>\<open>authors.length\<close> for the id.
\<close>

definition addBook :: "store \<Rightarrow> string \<Rightarrow> int \<Rightarrow> entity \<times> store" where
  "addBook st args_name args_authorId =
     (let book = \<lparr>id' = int (length (books st)) + 1, name = args_name,
                  authorId = Some args_authorId\<rparr>
      in (book, st\<lparr>books := books st @ [book]\<rparr>))"

definition addAuthor :: "store \<Rightarrow> string \<Rightarrow> entity \<times> store" where
  "addAuthor st args_name =
     (let author = \<lparr>id' = int (length (authors st)) + 1, name = args_name,
                    authorId = None\<rparr>
      in (author, st\<lparr>books := books st @ [author]\<rparr>))"

text \<open>A request to the mutation root, and a run of such requests from a store.\<close>

datatype mutation = AddBook string int | AddAuthor string

fun mutate :: "store \<Rightarrow> mutation \<Rightarrow> entity \<times> store" where
  "mutate st (AddBook n a) = addBook st n a"
| "mutate st (AddAuthor n) = addAuthor st n"

fun run :: "store \<Rightarrow> mutation list \<Rightarrow> store" where
  "run st [] = st"
| "run st (m # ms) = run (snd (mutate st m)) ms"

text \<open>The records the resolvers return during a run, in the order of the requests.\<close>

fun created :: "store \<Rightarrow> mutation list \<Rightarrow> entity list" where
  "created st [] = []"
| "created st (m # ms) = fst (mutate st m) # created (snd (mutate st m)) ms"

section \<open>Basic facts about the mutations\<close>

lemma addBook_authors: "authors (snd (addBook st n a)) = authors st"
  by (simp add: addBook_def Let_def)

lemma addAuthor_authors: "authors (snd (addAuthor st n)) = authors st"
  by (simp add: addAuthor_def Let_def)

lemma addBook_books: "books (snd (addBook st n a)) = books st @ [fst (addBook st n a)]"
  by (simp add: addBook_def Let_def)

lemma addAuthor_books: "books (snd (addAuthor st n)) = books st @ [fst (addAuthor st n)]"
  by (simp add: addAuthor_def Let_def)

lemma mutate_authors: "authors (snd (mutate st m)) = authors st"
  by (cases m) (simp_all add: addBook_authors addAuthor_authors)

lemma mutate_books: "books (snd (mutate st m)) = books st @ [fst (mutate st m)]"
  by (cases m) (simp_all add: addBook_books addAuthor_books)

lemma run_authors: "authors (run st ms) = authors st"
  by (induction ms arbitrary: st) (simp_all add: mutate_authors)

lemma run_books: "books (run st ms) = books st @ created st ms"
  by (induction ms arbitrary: st) (simp_all add: mutate_books)

lemma length_created: "length (created st ms) = length ms"
  by (induction ms arbitrary: st) simp_all

lemma initial_authors_ids: "a \<in> set initial_authors \<Longrightarrow> 1 \<le> id' a \<and> id' a \<le> 4"
  by (auto simp: initial_authors_def)

lemma initial_books_have_authorId: "b \<in> set initial_books \<Longrightarrow> authorId b \<noteq> None"
  by (auto simp: initial_books_def)

lemma addAuthor_id_initial:
  "authors st = initial_authors \<Longrightarrow> id' (fst (addAuthor st nm)) = 5"
  by (simp add: addAuthor_def Let_def initial_authors_def)

lemma query_author_in_authors: "query_author st i = Some a \<Longrightarrow> a \<in> set (authors st)"
  unfolding query_author_def find_Some_iff by auto

text \<open>Facts about \<open>filter\<close> and \<open>List.find\<close> that the resolvers need.\<close>

lemma count_list_filter_if:
  "count_list (filter P xs) x = (if P x then count_list xs x else 0)"
  by (induction xs) auto

lemma filter_by_index:
  "filter P xs = map (\<lambda>k. xs ! k) (filter (\<lambda>k. P (xs ! k)) [0..<length xs])"
proof -
  have "filter P xs = filter P (map (\<lambda>k. xs ! k) [0..<length xs])"
    by (simp add: map_nth)
  also have "\<dots> = map (\<lambda>k. xs ! k) (filter (\<lambda>k. P (xs ! k)) [0..<length xs])"
    by (simp add: filter_map comp_def)
  finally show ?thesis .
qed

lemma find_append_first:
  "List.find P xs = Some x \<Longrightarrow> List.find P (xs @ ys) = Some x"
  by (induction xs) (auto split: if_splits)

section \<open>The mutations\<close>

text \<open>
  C1. \<^verbatim>\<open>addAuthor\<close> with a name creates a record whose id is the current author count
  plus one and whose name is the given one (it has no \<^verbatim>\<open>authorId\<close>); the record is
  appended to the Book sequence, the Author sequence stays as it was, and the record is
  what the resolver returns.
\<close>

theorem addAuthor_creates_and_misfiles:
  "fst (addAuthor st nm) = \<lparr>id' = int (length (authors st)) + 1, name = nm, authorId = None\<rparr>
   \<and> books (snd (addAuthor st nm)) = books st @ [fst (addAuthor st nm)]
   \<and> authors (snd (addAuthor st nm)) = authors st"
  by (simp add: addAuthor_def Let_def)

text \<open>
  C3. \<^verbatim>\<open>addBook\<close> with a name and an authorId appends, at the end of the Book
  sequence, a Book whose id is the previous book count plus one, with the given name and
  the given authorId, whatever the authorId is (no Author needs to have it); the returned
  record is the appended one, and nothing else in the store changes.
\<close>

theorem addBook_appends_and_returns:
  "fst (addBook st nm aid) = \<lparr>id' = int (length (books st)) + 1, name = nm, authorId = Some aid\<rparr>
   \<and> books (snd (addBook st nm aid)) = books st @ [fst (addBook st nm aid)]
   \<and> last (books (snd (addBook st nm aid))) = fst (addBook st nm aid)
   \<and> length (books (snd (addBook st nm aid))) = length (books st) + 1
   \<and> authors (snd (addBook st nm aid)) = authors st"
  by (simp add: addBook_def Let_def)

text \<open>
  C8. Both sequences keep insertion order and nothing is removed or changed in place.
  After any run of mutations from any store, \<^verbatim>\<open>books\<close> returns the records the
  Book sequence held before the run, in their order, followed by the records created
  during the run, in the order of the requests (one per request); \<^verbatim>\<open>authors\<close>
  returns the records the Author sequence held before the run, in their order, and
  nothing after them. Before the run the two fields return the two sequences as they
  are.
\<close>

theorem mutations_append_only:
  "query_books (run st ms) = books st @ created st ms
   \<and> query_authors (run st ms) = authors st
   \<and> books (run st ms) = books st @ created st ms
   \<and> authors (run st ms) = authors st
   \<and> length (created st ms) = length ms
   \<and> prefix (books st) (query_books (run st ms))
   \<and> prefix (authors st) (query_authors (run st ms))
   \<and> query_books st = books st
   \<and> query_authors st = authors st
   \<and> query_books (run st ms) = query_books st @ created st ms
   \<and> prefix (query_books st) (query_books (run st ms))
   \<and> query_authors (run st ms) = query_authors st"
  by (simp add: query_books_def query_authors_def run_books run_authors length_created)

text \<open>
  C9. No operation modifies the Author sequence: \<^verbatim>\<open>addBook\<close> and \<^verbatim>\<open>addAuthor\<close>
  both leave it as it is. Hence in every state reached from the initial data
  \<^verbatim>\<open>authors\<close> returns the four initial authors, every \<^verbatim>\<open>addAuthor\<close> call returns a
  record with id 5 (the initial author count plus one, the same id at each call), and
  after any further mutations the created record is neither in the result of
  \<^verbatim>\<open>authors\<close> nor the result of \<^verbatim>\<open>author(id)\<close> for any argument; \<^verbatim>\<open>author(5)\<close>
  is absent.
\<close>

theorem author_sequence_frame:
  "authors (snd (addBook st n aid)) = authors st
   \<and> authors (snd (addAuthor st n)) = authors st
   \<and> query_authors (run initial_store ms) = initial_authors
   \<and> length initial_authors = 4
   \<and> id' (fst (addAuthor (run initial_store ms) nm)) = 5
   \<and> fst (addAuthor (run initial_store ms) nm)
        \<notin> set (query_authors (run (snd (addAuthor (run initial_store ms) nm)) ms'))
   \<and> (\<forall>i. query_author (run (snd (addAuthor (run initial_store ms) nm)) ms') i
           \<noteq> Some (fst (addAuthor (run initial_store ms) nm)))
   \<and> query_author (run (snd (addAuthor (run initial_store ms) nm)) ms') (Some 5) = None"
proof -
  let ?st = "run initial_store ms"
  let ?a = "fst (addAuthor ?st nm)"
  let ?st' = "run (snd (addAuthor ?st nm)) ms'"
  have reach: "authors ?st = initial_authors"
    by (simp add: run_authors initial_store_def)
  have later: "authors ?st' = initial_authors"
    by (simp add: run_authors addAuthor_authors initial_store_def)
  have five: "id' ?a = 5"
    using reach by (rule addAuthor_id_initial)
  have notin: "?a \<notin> set initial_authors"
    using five initial_authors_ids [of ?a] by auto
  have unreachable: "query_author ?st' i \<noteq> Some ?a" for i
    using query_author_in_authors [of ?st' i ?a] notin later by auto
  have none5: "query_author ?st' (Some 5) = None"
    unfolding query_author_def later by (simp add: initial_authors_def)
  show ?thesis
    using reach later five notin unfolding query_authors_def
    by (simp add: addBook_authors addAuthor_authors unreachable none5 initial_authors_def)
qed

section \<open>Uniqueness of ids in the Book sequence\<close>

text \<open>
  Runs of \<^verbatim>\<open>addBook\<close> alone keep the ids of the Book sequence equal to
  \<open>1, 2, \<dots>, length\<close>, so they stay pairwise different.
\<close>

lemma addBook_keeps_ids_consecutive:
  assumes "map id' (books st) = map int [1..<Suc (length (books st))]"
  shows "map id' (books (snd (addBook st n a)))
           = map int [1..<Suc (length (books (snd (addBook st n a))))]"
  using assms by (simp add: addBook_def Let_def)

lemma addBook_runs_keep_ids_consecutive:
  "map id' (books st) = map int [1..<Suc (length (books st))] \<Longrightarrow>
   map id' (books (run st (map (\<lambda>(n, a). AddBook n a) reqs)))
     = map int [1..<Suc (length (books (run st (map (\<lambda>(n, a). AddBook n a) reqs))))]"
proof (induction reqs arbitrary: st)
  case Nil
  then show ?case by simp
next
  case (Cons r reqs)
  obtain n a where r: "r = (n, a)" by (cases r)
  from Cons.prems have "map id' (books (snd (addBook st n a)))
           = map int [1..<Suc (length (books (snd (addBook st n a))))]"
    by (rule addBook_keeps_ids_consecutive)
  then show ?case
    using Cons.IH [of "snd (addBook st n a)"] by (simp add: r)
qed

lemma addBook_runs_keep_ids_distinct:
  "distinct (map id' (books (run initial_store (map (\<lambda>(n, a). AddBook n a) reqs))))"
proof -
  have "map id' (books initial_store) = map int [1..<Suc (length (books initial_store))]"
    by (simp add: initial_store_def initial_books_def upt_rec)
  then have "map id' (books (run initial_store (map (\<lambda>(n, a). AddBook n a) reqs)))
     = map int [1..<Suc (length (books (run initial_store (map (\<lambda>(n, a). AddBook n a) reqs))))]"
    by (rule addBook_runs_keep_ids_consecutive)
  moreover have "distinct (map int [1..<k])" for k
    by (simp add: distinct_map)
  ultimately show ?thesis by (simp only:)
qed

text \<open>
  C2. The claim is that in every state reached from the initial data by \<^verbatim>\<open>addBook\<close>
  and \<^verbatim>\<open>addAuthor\<close> calls the ids of the Book sequence are pairwise different. One
  \<^verbatim>\<open>addAuthor\<close> call on the initial data already gives a Book sequence with two
  records of id 5: the book at index 4 and the author record pushed at index 8.
\<close>

theorem addAuthor_duplicates_book_id:
  "books (snd (addAuthor initial_store ''Ursula K. Le Guin'')) ! 4
     = \<lparr>id' = 5, name = ''The Hobbit'', authorId = Some 3\<rparr>
   \<and> books (snd (addAuthor initial_store ''Ursula K. Le Guin'')) ! 8
     = \<lparr>id' = 5, name = ''Ursula K. Le Guin'', authorId = None\<rparr>
   \<and> \<not> distinct (map id' (books (snd (addAuthor initial_store ''Ursula K. Le Guin''))))"
  by (simp add: addAuthor_def Let_def initial_store_def initial_books_def initial_authors_def)

section \<open>Lookups\<close>

text \<open>
  C4. For an id that some record of the Book sequence has, \<^verbatim>\<open>book(id)\<close> returns a
  record of the Book sequence with exactly that id; for an id that no record of the
  sequence has, it returns absent. The resolver has no failing branch.
\<close>

theorem query_book_present_or_absent:
  "(i \<in> id' ` set (books st) \<longrightarrow>
      (\<exists>b. query_book st (Some i) = Some b \<and> b \<in> set (books st) \<and> id' b = i))
   \<and> (i \<notin> id' ` set (books st) \<longrightarrow> query_book st (Some i) = None)"
proof (intro conjI impI)
  assume "i \<in> id' ` set (books st)"
  then have "query_book st (Some i) \<noteq> None"
    by (auto simp: query_book_def find_None_iff)
  then obtain b where b: "query_book st (Some i) = Some b" by blast
  then have "b \<in> set (books st) \<and> id' b = i"
    unfolding query_book_def by (auto simp: find_Some_iff)
  with b show "\<exists>b. query_book st (Some i) = Some b \<and> b \<in> set (books st) \<and> id' b = i"
    by blast
next
  assume "i \<notin> id' ` set (books st)"
  then show "query_book st (Some i) = None"
    by (auto simp: query_book_def find_None_iff)
qed

theorem query_book_present_or_absent_witness:
  "3 \<in> id' ` set (books initial_store)
   \<and> (\<exists>b. query_book initial_store (Some 3) = Some b \<and> b \<in> set (books initial_store) \<and> id' b = 3)
   \<and> query_book initial_store (Some 3) = Some \<lparr>id' = 3, name = ''A Game of Thrones'', authorId = Some 2\<rparr>
   \<and> 99 \<notin> id' ` set (books initial_store)
   \<and> query_book initial_store (Some 99) = None"
proof -
  have present: "3 \<in> id' ` set (books initial_store)"
    by (simp add: initial_store_def initial_books_def)
  have absent: "99 \<notin> id' ` set (books initial_store)"
    by (simp add: initial_store_def initial_books_def)
  have val: "query_book initial_store (Some 3)
               = Some \<lparr>id' = 3, name = ''A Game of Thrones'', authorId = Some 2\<rparr>"
    by (simp add: query_book_def initial_store_def initial_books_def)
  show ?thesis
    using present absent val
      query_book_present_or_absent [of 3 initial_store]
      query_book_present_or_absent [of 99 initial_store]
    by blast
qed

text \<open>
  In the states reached from the initial data, the record that \<^verbatim>\<open>book(id)\<close> returns is
  always a book (it has an \<^verbatim>\<open>authorId\<close>): the author records pushed onto the Book
  sequence all have id 5 and come after the initial book with id 5.
\<close>

lemma created_shape:
  "authors st = initial_authors \<Longrightarrow> b \<in> set (created st ms) \<Longrightarrow> authorId b = None \<Longrightarrow> id' b = 5"
proof (induction ms arbitrary: st)
  case Nil
  then show ?case by simp
next
  case (Cons m ms)
  from Cons.prems(2) consider "b = fst (mutate st m)" | "b \<in> set (created (snd (mutate st m)) ms)"
    by auto
  then show ?case
  proof cases
    case 1
    with Cons.prems(1,3) show ?thesis
      by (cases m) (auto simp: addBook_def addAuthor_def Let_def initial_authors_def)
  next
    case 2
    with Cons.IH [of "snd (mutate st m)"] Cons.prems(1,3) show ?thesis
      by (simp add: mutate_authors)
  qed
qed

lemma query_book_reachable_is_book:
  assumes "query_book (run initial_store ms) i = Some b"
  shows "authorId b \<noteq> None"
proof
  assume none: "authorId b = None"
  let ?new = "created initial_store ms"
  have bs: "books (run initial_store ms) = initial_books @ ?new"
    by (simp add: run_books initial_store_def)
  from assms have "b \<in> set (books (run initial_store ms))" and i: "Some (id' b) = i"
    unfolding query_book_def find_Some_iff by auto
  with bs none initial_books_have_authorId [of b] have "b \<in> set ?new" by auto
  with none have "id' b = 5"
    using created_shape [of initial_store b ms] by (simp add: initial_store_def)
  with i have i5: "i = Some 5" by simp
  have "List.find (\<lambda>book. Some (id' book) = Some 5) initial_books
          = Some \<lparr>id' = 5, name = ''The Hobbit'', authorId = Some 3\<rparr>"
    by (simp add: initial_books_def)
  then have "query_book (run initial_store ms) (Some 5)
          = Some \<lparr>id' = 5, name = ''The Hobbit'', authorId = Some 3\<rparr>"
    unfolding query_book_def bs by (rule find_append_first)
  with assms i5 have "b = \<lparr>id' = 5, name = ''The Hobbit'', authorId = Some 3\<rparr>" by simp
  with none show False by simp
qed

text \<open>
  C7. With the \<^verbatim>\<open>id\<close> argument omitted, \<^verbatim>\<open>book\<close> and \<^verbatim>\<open>author\<close> return absent,
  whatever the store holds: neither the first element nor any other record is returned.
\<close>

theorem omitted_id_absent: "query_book st None = None \<and> query_author st None = None"
  by (simp add: query_book_def query_author_def find_None_iff)

text \<open>
  C10. When more than one record of the Book sequence has the queried id,
  \<^verbatim>\<open>book(id)\<close> returns the earliest of them in sequence order: the record at the
  least index with that id, which is at or before the first of any two such records.
\<close>

theorem query_book_earliest_duplicate:
  assumes "j1 < j2" and "j2 < length (books st)"
    and "id' (books st ! j1) = i" and "id' (books st ! j2) = i"
  shows "\<exists>k \<le> j1. query_book st (Some i) = Some (books st ! k)
           \<and> id' (books st ! k) = i
           \<and> (\<forall>j < k. id' (books st ! j) \<noteq> i)"
proof -
  from assms have "books st ! j1 \<in> set (books st)" by simp
  with assms(3) have "query_book st (Some i) \<noteq> None"
    by (auto simp: query_book_def find_None_iff)
  then obtain b where "query_book st (Some i) = Some b" by blast
  then obtain k where k: "k < length (books st)" "query_book st (Some i) = Some (books st ! k)"
      "id' (books st ! k) = i" "\<forall>j < k. id' (books st ! j) \<noteq> i"
    unfolding query_book_def find_Some_iff by auto
  from k(4) assms(3) have "\<not> j1 < k" by blast
  then have "k \<le> j1" by simp
  with k show ?thesis by blast
qed

text \<open>
  Such a state is reached by one \<^verbatim>\<open>addAuthor\<close> call on the initial data: indices 4
  and 8 both hold id 5, and \<^verbatim>\<open>book(5)\<close> returns the book at index 4.
\<close>

theorem query_book_earliest_duplicate_witness:
  "(4::nat) < 8
   \<and> 8 < length (books (snd (addAuthor initial_store ''Ursula K. Le Guin'')))
   \<and> id' (books (snd (addAuthor initial_store ''Ursula K. Le Guin'')) ! 4) = 5
   \<and> id' (books (snd (addAuthor initial_store ''Ursula K. Le Guin'')) ! 8) = 5
   \<and> (\<exists>k \<le> 4. query_book (snd (addAuthor initial_store ''Ursula K. Le Guin'')) (Some 5)
                  = Some (books (snd (addAuthor initial_store ''Ursula K. Le Guin'')) ! k)
           \<and> id' (books (snd (addAuthor initial_store ''Ursula K. Le Guin'')) ! k) = 5
           \<and> (\<forall>j < k. id' (books (snd (addAuthor initial_store ''Ursula K. Le Guin'')) ! j) \<noteq> 5))
   \<and> query_book (snd (addAuthor initial_store ''Ursula K. Le Guin'')) (Some 5)
       = Some \<lparr>id' = 5, name = ''The Hobbit'', authorId = Some 3\<rparr>"
proof -
  let ?st = "snd (addAuthor initial_store ''Ursula K. Le Guin'')"
  have bs: "books ?st = initial_books @ [\<lparr>id' = 5, name = ''Ursula K. Le Guin'', authorId = None\<rparr>]"
    by (simp add: addAuthor_def Let_def initial_store_def initial_authors_def)
  have len: "8 < length (books ?st)"
    unfolding bs by (simp add: initial_books_def)
  have first: "id' (books ?st ! 4) = 5"
    unfolding bs by (simp add: initial_books_def)
  have second: "id' (books ?st ! 8) = 5"
    unfolding bs by (simp add: initial_books_def)
  have val: "query_book ?st (Some 5) = Some \<lparr>id' = 5, name = ''The Hobbit'', authorId = Some 3\<rparr>"
    unfolding query_book_def bs by (simp add: initial_books_def)
  have "(4::nat) < 8" by simp
  from query_book_earliest_duplicate [OF this len first second] len first second val
  show ?thesis by simp
qed

section \<open>Relational fields\<close>

text \<open>
  C5. \<^verbatim>\<open>Book.author\<close> of a record resolves to the first Author in sequence order
  whose id equals the record's authorId, and to absent when no Author has that id; a
  dangling authorId gives absent. This holds for every record, in the store or not.
\<close>

theorem BookType_author_first_match:
  "((\<exists>a \<in> set (authors st). Some (id' a) = authorId b) \<longrightarrow>
      (\<exists>k < length (authors st).
         BookType_author st b = Some (authors st ! k)
         \<and> Some (id' (authors st ! k)) = authorId b
         \<and> (\<forall>j < k. Some (id' (authors st ! j)) \<noteq> authorId b)))
   \<and> (\<not> (\<exists>a \<in> set (authors st). Some (id' a) = authorId b) \<longrightarrow>
        BookType_author st b = None)"
proof (intro conjI impI)
  assume "\<exists>a \<in> set (authors st). Some (id' a) = authorId b"
  then have "BookType_author st b \<noteq> None"
    by (auto simp: BookType_author_def find_None_iff)
  then obtain a where "BookType_author st b = Some a" by blast
  then show "\<exists>k < length (authors st).
         BookType_author st b = Some (authors st ! k)
         \<and> Some (id' (authors st ! k)) = authorId b
         \<and> (\<forall>j < k. Some (id' (authors st ! j)) \<noteq> authorId b)"
    unfolding BookType_author_def find_Some_iff by blast
next
  assume "\<not> (\<exists>a \<in> set (authors st). Some (id' a) = authorId b)"
  then show "BookType_author st b = None"
    by (auto simp: BookType_author_def find_None_iff)
qed

theorem BookType_author_first_match_witness:
  "(\<exists>a \<in> set (authors initial_store).
       Some (id' a) = authorId \<lparr>id' = 5, name = ''The Hobbit'', authorId = Some 3\<rparr>)
   \<and> (\<exists>k < length (authors initial_store).
         BookType_author initial_store \<lparr>id' = 5, name = ''The Hobbit'', authorId = Some 3\<rparr>
           = Some (authors initial_store ! k)
         \<and> Some (id' (authors initial_store ! k))
             = authorId \<lparr>id' = 5, name = ''The Hobbit'', authorId = Some 3\<rparr>
         \<and> (\<forall>j < k. Some (id' (authors initial_store ! j))
               \<noteq> authorId \<lparr>id' = 5, name = ''The Hobbit'', authorId = Some 3\<rparr>))
   \<and> BookType_author initial_store \<lparr>id' = 5, name = ''The Hobbit'', authorId = Some 3\<rparr>
       = Some \<lparr>id' = 3, name = ''J.R.R. Tolkien'', authorId = None\<rparr>
   \<and> \<not> (\<exists>a \<in> set (authors initial_store).
       Some (id' a) = authorId \<lparr>id' = 9, name = ''Dune'', authorId = Some 7\<rparr>)
   \<and> BookType_author initial_store \<lparr>id' = 9, name = ''Dune'', authorId = Some 7\<rparr> = None"
proof -
  let ?hobbit = "\<lparr>id' = 5, name = ''The Hobbit'', authorId = Some 3\<rparr>"
  let ?dune = "\<lparr>id' = 9, name = ''Dune'', authorId = Some 7\<rparr>"
  have linked: "\<exists>a \<in> set (authors initial_store). Some (id' a) = authorId ?hobbit"
    by (simp add: initial_store_def initial_authors_def)
  have dangling: "\<not> (\<exists>a \<in> set (authors initial_store). Some (id' a) = authorId ?dune)"
    by (simp add: initial_store_def initial_authors_def)
  have val: "BookType_author initial_store ?hobbit
               = Some \<lparr>id' = 3, name = ''J.R.R. Tolkien'', authorId = None\<rparr>"
    by (simp add: BookType_author_def initial_store_def initial_authors_def)
  show ?thesis
    using linked dangling val
      BookType_author_first_match [of initial_store ?hobbit]
      BookType_author_first_match [of initial_store ?dune]
    by blast
qed

text \<open>
  C6. \<^verbatim>\<open>Author.books\<close> of an Author resolves to exactly the Books whose authorId
  equals the Author's id, in the order of the Book sequence: the result is a subsequence
  of the Book sequence, every record occurs in it as often as in the Book sequence when
  its authorId matches and not at all otherwise, and it lists the records at the matching
  positions in ascending position.
\<close>

theorem AuthorType_books_exact:
  "subseq (AuthorType_books st a) (query_books st)
   \<and> (\<forall>b. count_list (AuthorType_books st a) b =
           (if authorId b = Some (id' a) then count_list (query_books st) b else 0))
   \<and> AuthorType_books st a =
       map (\<lambda>k. query_books st ! k)
         (filter (\<lambda>k. authorId (query_books st ! k) = Some (id' a)) [0..<length (query_books st)])"
proof (intro conjI allI)
  show "subseq (AuthorType_books st a) (query_books st)"
    by (simp add: AuthorType_books_def query_books_def)
next
  fix b
  show "count_list (AuthorType_books st a) b =
          (if authorId b = Some (id' a) then count_list (query_books st) b else 0)"
    unfolding AuthorType_books_def query_books_def by (rule count_list_filter_if)
next
  show "AuthorType_books st a =
       map (\<lambda>k. query_books st ! k)
         (filter (\<lambda>k. authorId (query_books st ! k) = Some (id' a)) [0..<length (query_books st)])"
    unfolding AuthorType_books_def query_books_def by (rule filter_by_index)
qed

end
